theory Spec2Isabelle
  imports Main "HOL-Library.Char_ord" "HOL-Library.List_Lexorder" "HOL-Library.Multiset"
begin

section \<open>Python values used by \<open>scripts/extract_structured.py\<close>\<close>

text \<open>
  A Python \<open>str\<close> is modelled as an Isabelle \<open>string\<close>, one \<open>char\<close> per code point, so
  the model covers the code points 0 to 255 and \<open>length\<close> counts code points as Python's
  \<open>len\<close> does. Strings are compared as Python compares them: lexicographically by code
  point, a proper prefix being smaller (the order of \<open>HOL-Library.List_Lexorder\<close> over
  \<open>HOL-Library.Char_ord\<close>).
\<close>

subsection \<open>The \<open>str\<close> methods the script calls\<close>

text \<open>
  \<open>str.isspace\<close> on one character: the whitespace code points below 256 are
  U+0009 to U+000D, U+001C to U+0020, U+0085 and U+00A0.
\<close>

definition isspace :: "char \<Rightarrow> bool" where
  "isspace c = (c \<in> set [CHR 0x09, CHR 0x0A, CHR 0x0B, CHR 0x0C, CHR 0x0D, CHR 0x1C, CHR 0x1D,
     CHR 0x1E, CHR 0x1F, CHR 0x20, CHR 0x85, CHR 0xA0])"

text \<open>\<open>s.strip()\<close>: leading and trailing whitespace removed.\<close>

definition str_strip :: "string \<Rightarrow> string" where
  "str_strip s = rev (dropWhile isspace (rev (dropWhile isspace s)))"

text \<open>\<open>s.replace(a, b)\<close> for one-character \<open>a\<close> and \<open>b\<close>, as in \<open>cls.replace('_', ' ')\<close>.\<close>

definition str_replace :: "char \<Rightarrow> char \<Rightarrow> string \<Rightarrow> string" where
  "str_replace a b s = map (\<lambda>c. if c = a then b else c) s"

text \<open>
  \<open>s.title()\<close>: CPython walks the string once; a character that follows a cased character
  is replaced by its lower-case image, any other character by its title-case image. The
  case tables are those of Unicode for the code points below 256:
  \<^item> the upper-case letters \<open>A\<close> to \<open>Z\<close>, U+00C0 to U+00D6 and U+00D8 to U+00DE, with the
    lower-case letters \<open>a\<close> to \<open>z\<close>, U+00E0 to U+00F6 and U+00F8 to U+00FE as their images,
    and conversely;
  \<^item> U+00DF, cased, its own lower-case image, with the two characters \<open>Ss\<close> as its
    title-case image;
  \<^item> U+00AA and U+00BA, cased, without case images;
  \<^item> U+00B5 and U+00FF, cased, their own lower-case images. Their title-case images are
    U+039C and U+0178, which no string of this development can hold: \<open>totitle\<close> leaves
    the two characters as they are, and every statement about a title-cased label
    excludes labels with one of them (\<open>title_in_range\<close>).
\<close>

definition lower_letters :: string where
  "lower_letters = ''abcdefghijklmnopqrstuvwxyz'' @
     [CHR 0xE0, CHR 0xE1, CHR 0xE2, CHR 0xE3, CHR 0xE4, CHR 0xE5, CHR 0xE6, CHR 0xE7, CHR
      0xE8, CHR 0xE9, CHR 0xEA, CHR 0xEB, CHR 0xEC, CHR 0xED, CHR 0xEE, CHR 0xEF, CHR
      0xF0, CHR 0xF1, CHR 0xF2, CHR 0xF3, CHR 0xF4, CHR 0xF5, CHR 0xF6, CHR 0xF8, CHR
      0xF9, CHR 0xFA, CHR 0xFB, CHR 0xFC, CHR 0xFD, CHR 0xFE]"

definition upper_letters :: string where
  "upper_letters = ''ABCDEFGHIJKLMNOPQRSTUVWXYZ'' @
     [CHR 0xC0, CHR 0xC1, CHR 0xC2, CHR 0xC3, CHR 0xC4, CHR 0xC5, CHR 0xC6, CHR 0xC7, CHR
      0xC8, CHR 0xC9, CHR 0xCA, CHR 0xCB, CHR 0xCC, CHR 0xCD, CHR 0xCE, CHR 0xCF, CHR
      0xD0, CHR 0xD1, CHR 0xD2, CHR 0xD3, CHR 0xD4, CHR 0xD5, CHR 0xD6, CHR 0xD8, CHR
      0xD9, CHR 0xDA, CHR 0xDB, CHR 0xDC, CHR 0xDD, CHR 0xDE]"

definition iscased :: "char \<Rightarrow> bool" where
  "iscased c =
     (c \<in> set lower_letters \<or> c \<in> set upper_letters \<or>
      c \<in> set [CHR 0xAA, CHR 0xB5, CHR 0xBA, CHR 0xDF, CHR 0xFF])"

definition totitle :: "char \<Rightarrow> string" where
  "totitle c =
     (if c = CHR 0xDF then ''Ss''
      else case map_of (zip lower_letters upper_letters) c of Some u \<Rightarrow> [u] | None \<Rightarrow> [c])"

definition tolower :: "char \<Rightarrow> string" where
  "tolower c = (case map_of (zip upper_letters lower_letters) c of Some l \<Rightarrow> [l] | None \<Rightarrow> [c])"

fun title_from :: "bool \<Rightarrow> string \<Rightarrow> string" where
  "title_from previous_is_cased [] = []"
| "title_from previous_is_cased (c # cs) =
     (if previous_is_cased then tolower c else totitle c) @ title_from (iscased c) cs"

definition str_title :: "string \<Rightarrow> string" where
  "str_title s = title_from False s"

text \<open>\<open>sep.join(xs)\<close>.\<close>

fun str_join :: "string \<Rightarrow> string list \<Rightarrow> string" where
  "str_join sep [] = []"
| "str_join sep [x] = x"
| "str_join sep (x # y # ys) = x @ sep @ str_join sep (y # ys)"

subsection \<open>Values, exceptions and the engine's records\<close>

text \<open>
  The attributes of an extraction record are read with \<open>getattr\<close>, so they may hold any
  Python value. The model keeps the three kinds that behave differently in the script:
  \<open>None\<close>, an \<open>int\<close> and a \<open>str\<close>. Only a \<open>str\<close> has the methods \<open>strip\<close>, \<open>replace\<close> and
  \<open>title\<close>; all three kinds are hashable, so all can be dictionary keys. Values of other
  kinds are not represented (a \<open>bytes\<close> object, for one, has a \<open>strip\<close> method of its
  own), so nothing below says that every value that is not a \<open>str\<close> makes the script
  raise.
\<close>

datatype pyval = PyNone | PyInt int | PyStr string

datatype error = AttributeError | TypeError

text \<open>
  An extraction record: \<open>None\<close> for an attribute says that the object has no such
  attribute; \<open>str_of\<close> is what \<open>str(e)\<close> returns.
\<close>

record extraction =
  extraction_class :: "pyval option"
  extraction_text :: "pyval option"
  str_of :: string

text \<open>
  What \<open>flatten_extractions\<close> is given: an object without an \<open>extractions\<close> attribute (an
  empty list, for one), or a document whose \<open>extractions\<close> is \<open>None\<close> or a list of records.
\<close>

datatype result = NoExtractionsAttr | AnnotatedDocument "extraction list option"

text \<open>\<open>getattr(obj, name, default)\<close> on an attribute that may be absent.\<close>

definition getattr :: "'a option \<Rightarrow> 'a \<Rightarrow> 'a" where
  "getattr attr dflt = (case attr of Some v \<Rightarrow> v | None \<Rightarrow> dflt)"

text \<open>\<open>v.strip()\<close> on a value: an \<open>AttributeError\<close> unless the value is a \<open>str\<close>.\<close>

definition py_strip :: "pyval \<Rightarrow> error + string" where
  "py_strip v = (case v of PyStr s \<Rightarrow> Inr (str_strip s) | _ \<Rightarrow> Inl AttributeError)"

text \<open>
  \<open>a < b\<close> on values: defined between two \<open>str\<close> and between two \<open>int\<close>, a \<open>TypeError\<close>
  otherwise.
\<close>

fun py_less :: "pyval \<Rightarrow> pyval \<Rightarrow> error + bool" where
  "py_less (PyStr a) (PyStr b) = Inr (a < b)"
| "py_less (PyInt a) (PyInt b) = Inr (a < b)"
| "py_less _ _ = Inl TypeError"

section \<open>\<open>flatten_extractions\<close>\<close>

subsection \<open>The dictionary \<open>by_class\<close>\<close>

text \<open>
  \<open>by_class\<close> is a \<open>dict\<close> from label to the list of its texts. A \<open>dict\<close> keeps its keys in
  insertion order, so it is an association list with distinct keys.
\<close>

type_synonym by_class = "(pyval \<times> string list) list"

text \<open>\<open>by_class.setdefault(cls, []).append(text)\<close>.\<close>

fun setdefault_append :: "pyval \<Rightarrow> string \<Rightarrow> by_class \<Rightarrow> by_class" where
  "setdefault_append cls text [] = [(cls, [text])]"
| "setdefault_append cls text ((k, texts) # d) =
     (if k = cls then (k, texts @ [text]) # d else (k, texts) # setdefault_append cls text d)"

text \<open>The \<open>for e in result.extractions\<close> loop, lines 99 to 104.\<close>

fun group_loop :: "extraction list \<Rightarrow> by_class \<Rightarrow> error + by_class" where
  "group_loop [] d = Inr d"
| "group_loop (e # es) d =
     (let cls = getattr (extraction_class e) (PyStr ''fact'') in
      case py_strip (getattr (extraction_text e) (PyStr (str_of e))) of
        Inl err \<Rightarrow> Inl err
      | Inr text \<Rightarrow>
          if text = [] then group_loop es d
          else group_loop es (setdefault_append cls text d))"

text \<open>\<open>if by_class.get(key):\<close> is taken when the key is present with a non-empty list.\<close>

definition get_truthy :: "by_class \<Rightarrow> pyval \<Rightarrow> bool" where
  "get_truthy d key = (case map_of d key of Some texts \<Rightarrow> texts \<noteq> [] | None \<Rightarrow> False)"

text \<open>\<open>by_class[key]\<close>, read only under \<open>get_truthy\<close>.\<close>

definition subscript :: "by_class \<Rightarrow> pyval \<Rightarrow> string list" where
  "subscript d key = (case map_of d key of Some texts \<Rightarrow> texts | None \<Rightarrow> [])"

subsection \<open>\<open>sorted(by_class.items())\<close>\<close>

text \<open>
  The items are pairs; Python compares two pairs by their first components unless these
  are equal, and then by the second ones (lists of \<open>str\<close>). \<open>sorted\<close> raises what a
  comparison raises. The model sorts by insertion: every record but the first is compared
  with another one, as in any comparison sort, so the model raises exactly when \<open>sorted\<close>
  does, and on comparable items both return the one sorted list.
\<close>

definition item_less :: "pyval \<times> string list \<Rightarrow> pyval \<times> string list \<Rightarrow> error + bool" where
  "item_less x y = (if fst x = fst y then Inr (snd x < snd y) else py_less (fst x) (fst y))"

fun insort_py :: "pyval \<times> string list \<Rightarrow> by_class \<Rightarrow> error + by_class" where
  "insort_py x [] = Inr [x]"
| "insort_py x (y # ys) =
     (case item_less x y of
        Inl err \<Rightarrow> Inl err
      | Inr True \<Rightarrow> Inr (x # y # ys)
      | Inr False \<Rightarrow> (case insort_py x ys of Inl err \<Rightarrow> Inl err | Inr r \<Rightarrow> Inr (y # r)))"

fun sorted_py :: "by_class \<Rightarrow> error + by_class" where
  "sorted_py [] = Inr []"
| "sorted_py (x # xs) = (case sorted_py xs of Inl err \<Rightarrow> Inl err | Inr r \<Rightarrow> insort_py x r)"

subsection \<open>The sections\<close>

definition newline :: string where
  "newline = [CHR 0x0A]"

text \<open>\<open>"\n".join("- " + t for t in texts)\<close>.\<close>

definition bullets :: "string list \<Rightarrow> string" where
  "bullets texts = str_join newline (map (\<lambda>t. ''- '' @ t) texts)"

text \<open>The three \<open>if by_class.get(...)\<close> statements, lines 106 to 111.\<close>

definition canonical_parts :: "by_class \<Rightarrow> string list" where
  "canonical_parts d =
     (let parts = [];
          parts = (if get_truthy d (PyStr ''summary'')
                   then parts @ [''Summary:'' @ newline @ str_join newline (subscript d (PyStr ''summary''))]
                   else parts);
          parts = (if get_truthy d (PyStr ''key_point'')
                   then parts @ [''Key points:'' @ newline @ bullets (subscript d (PyStr ''key_point''))]
                   else parts);
          parts = (if get_truthy d (PyStr ''fact'')
                   then parts @ [''Facts:'' @ newline @ bullets (subscript d (PyStr ''fact''))]
                   else parts)
      in parts)"

text \<open>
  The \<open>for cls, texts in sorted(...)\<close> loop, lines 112 to 115. \<open>cls.replace\<close> is an
  \<open>AttributeError\<close> on a label that is not a \<open>str\<close>.
\<close>

fun other_parts :: "by_class \<Rightarrow> string list \<Rightarrow> error + string list" where
  "other_parts [] parts = Inr parts"
| "other_parts ((cls, texts) # items) parts =
     (if cls \<in> set [PyStr ''summary'', PyStr ''key_point'', PyStr ''fact'']
      then other_parts items parts
      else case cls of
             PyStr s \<Rightarrow>
               other_parts items
                 (parts @ [str_title (str_replace CHR ''_'' CHR '' '' s) @ '':'' @ newline @ bullets texts])
           | _ \<Rightarrow> Inl AttributeError)"

text \<open>The list \<open>parts\<close> as it stands at line 116.\<close>

definition flatten_parts :: "extraction list \<Rightarrow> error + string list" where
  "flatten_parts es =
     (case group_loop es [] of
        Inl err \<Rightarrow> Inl err
      | Inr d \<Rightarrow>
          (case sorted_py d of
             Inl err \<Rightarrow> Inl err
           | Inr items \<Rightarrow> other_parts items (canonical_parts d)))"

definition flatten_extractions :: "result \<Rightarrow> error + string" where
  "flatten_extractions r =
     (case r of
        NoExtractionsAttr \<Rightarrow> Inr []
      | AnnotatedDocument None \<Rightarrow> Inr []
      | AnnotatedDocument (Some es) \<Rightarrow>
          if es = [] then Inr []
          else (case flatten_parts es of
                  Inl err \<Rightarrow> Inl err
                | Inr parts \<Rightarrow> Inr (if parts \<noteq> [] then str_join (newline @ newline) parts else [])))"

section \<open>\<open>main\<close>\<close>

subsection \<open>The arguments of \<open>lx.extract\<close>\<close>

text \<open>The worked example of lines 37 to 58: \<open>lx.data.ExampleData\<close> and \<open>lx.data.Extraction\<close>.\<close>

datatype example_extraction = Extraction string string "(string \<times> string) list"

datatype example_data = ExampleData string "example_extraction list"

text \<open>\<open>prompt\<close>, the dedented literal of lines 31 to 35.\<close>

definition prompt :: string where
  "prompt =
     ''Extract structured information from the following web page or document text.'' @ newline @
     ''Use exact wording from the text where possible. Do not paraphrase heavily.'' @ newline @
     ''Provide: a short summary, key points (bullets), and important facts or entities.'' @ newline @
     ''Order extractions by appearance. Do not overlap or duplicate.''"

definition examples :: "example_data list" where
  "examples =
     [ExampleData
        ''John is a Data Engineer at Acme. He works on Python and SQL. He has 3 years of experience.''
        [Extraction ''summary'' ''John is a Data Engineer at Acme with 3 years of experience.''
           [(''role'', ''Data Engineer''), (''company'', ''Acme'')],
         Extraction ''key_point'' ''Works on Python and SQL'' [(''skills'', ''Python, SQL'')],
         Extraction ''fact'' ''3 years of experience'' [(''metric'', ''experience'')]]]"

text \<open>
  The dictionary \<open>extract_kwargs\<close>. A key that the dictionary may lack is an \<open>option\<close>:
  \<open>None\<close> says that the key is not passed, so that the engine's default applies. The
  field \<open>examples_arg\<close> is the key \<open>examples\<close>.
\<close>

record extract_kwargs =
  text_or_documents :: string
  prompt_description :: string
  examples_arg :: "example_data list"
  model_id :: string
  model_url :: "string option"
  fence_output :: "bool option"
  use_schema_constraints :: "bool option"

subsection \<open>\<open>__get_env_key\<close>\<close>

text \<open>\<open>os.environ.get\<close>: the value of a variable, \<open>None\<close> when it is not set.\<close>

type_synonym environ = "string \<Rightarrow> string option"

text \<open>\<open>a or b\<close> on values that are \<open>None\<close> or a \<open>str\<close>: \<open>a\<close> when it is a non-empty \<open>str\<close>.\<close>

definition py_or :: "string option \<Rightarrow> string option \<Rightarrow> string option" where
  "py_or a b = (case a of Some s \<Rightarrow> if s \<noteq> [] then a else b | None \<Rightarrow> b)"

text \<open>
  \<open>(os.environ.get("LANGEXTRACT_API_KEY") or os.environ.get("GOOGLE_API_KEY") or "").strip()\<close>.
\<close>

definition get_env_key :: "environ \<Rightarrow> string" where
  "get_env_key env =
     (case py_or (py_or (env ''LANGEXTRACT_API_KEY'') (env ''GOOGLE_API_KEY'')) (Some []) of
        Some s \<Rightarrow> str_strip s
      | None \<Rightarrow> [])"

text \<open>Lines 60 to 71: the dictionary, and its four changes when there is no key.\<close>

definition extract_kwargs_of :: "environ \<Rightarrow> string \<Rightarrow> extract_kwargs" where
  "extract_kwargs_of env raw =
     (let kwargs = \<lparr>text_or_documents = take 200000 raw, prompt_description = prompt,
            examples_arg = examples, model_id = ''gemini-2.5-flash'', model_url = None,
            fence_output = None, use_schema_constraints = None\<rparr>
      in if get_env_key env = []
         then kwargs\<lparr>model_id := ''gemma2:2b'', model_url := Some ''http://localhost:11434'',
                fence_output := Some False, use_schema_constraints := Some False\<rparr>
         else kwargs)"

subsection \<open>The process\<close>

text \<open>
  What \<open>lx.extract\<close> returns: one document or a list of documents. The engine is a
  function of its arguments that returns such a value or raises an \<open>Exception\<close>, which is
  modelled by its message \<open>str(e)\<close>. \<open>langextract = None\<close> is the \<open>ImportError\<close> of line 26.
\<close>

datatype engine_value = OneDocument result | DocumentList "result list"

record world =
  stdin :: string
  environ :: environ
  langextract :: "(extract_kwargs \<Rightarrow> string + engine_value) option"

text \<open>
  How the process ends: \<open>main\<close> returns, \<open>sys.exit(n)\<close>, or an exception that nothing
  catches (the interpreter then prints a traceback on the error stream, which the model
  does not spell out, and the exit status is 1). \<open>extract_calls\<close> lists the calls of
  \<open>lx.extract\<close> with their arguments.
\<close>

datatype ending = Returned | SysExit nat | Uncaught error

record outcome =
  stdout :: string
  stderr :: string
  ending :: ending
  extract_calls :: "extract_kwargs list"

fun exit_status :: "ending \<Rightarrow> nat" where
  "exit_status Returned = 0"
| "exit_status (SysExit n) = n"
| "exit_status (Uncaught err) = 1"

text \<open>
  Lines 80 and 81: the first element of a non-empty list; an empty list stays as it is,
  an object without an \<open>extractions\<close> attribute.
\<close>

fun first_result :: "engine_value \<Rightarrow> result" where
  "first_result (OneDocument r) = r"
| "first_result (DocumentList []) = NoExtractionsAttr"
| "first_result (DocumentList (r # rs)) = r"

definition main :: "world \<Rightarrow> outcome" where
  "main w =
     (let raw = str_strip (stdin w) in
      if raw = [] then
        \<lparr>stdout = [], stderr = ''extract_structured: no input'' @ newline,
         ending = SysExit 1, extract_calls = []\<rparr>
      else
        (case langextract w of
           None \<Rightarrow>
             \<lparr>stdout = [],
              stderr = ''extract_structured: langextract not installed (pip install -r requirements-langextract.txt)'' @ newline,
              ending = SysExit 1, extract_calls = []\<rparr>
         | Some extract \<Rightarrow>
             (let kwargs = extract_kwargs_of (environ w) raw in
              case extract kwargs of
                Inl e \<Rightarrow>
                  \<lparr>stdout = [], stderr = ''extract_structured: extraction failed: '' @ e @ newline,
                   ending = SysExit 1, extract_calls = [kwargs]\<rparr>
              | Inr v \<Rightarrow>
                  (case flatten_extractions (first_result v) of
                     Inl err \<Rightarrow>
                       \<lparr>stdout = [], stderr = [], ending = Uncaught err, extract_calls = [kwargs]\<rparr>
                   | Inr out \<Rightarrow>
                       if str_strip out = [] then
                         \<lparr>stdout = take 50000 raw, stderr = [], ending = Returned,
                          extract_calls = [kwargs]\<rparr>
                       else
                         \<lparr>stdout = out, stderr = [], ending = Returned,
                          extract_calls = [kwargs]\<rparr>))))"

section \<open>The specification's notions\<close>

text \<open>
  The definitions of this section are not part of the script. They say in the
  specification's words what the script is claimed to compute, and the theorems below
  compare them with the definitions above.
\<close>

text \<open>The label and the text of a record, with the defaults of lines 100 and 101.\<close>

definition label_of :: "extraction \<Rightarrow> pyval" where
  "label_of e = getattr (extraction_class e) (PyStr ''fact'')"

definition text_of :: "extraction \<Rightarrow> pyval" where
  "text_of e = getattr (extraction_text e) (PyStr (str_of e))"

fun is_str :: "pyval \<Rightarrow> bool" where
  "is_str (PyStr s) = True"
| "is_str _ = False"

fun str_value :: "pyval \<Rightarrow> string" where
  "str_value (PyStr s) = s"
| "str_value _ = []"

text \<open>The trimmed text of a record.\<close>

definition kept_text :: "extraction \<Rightarrow> string" where
  "kept_text e = str_strip (str_value (text_of e))"

text \<open>
  The group of a label: the trimmed texts of the records with this label, in the order of
  the records, without the empty ones.
\<close>

definition group_of :: "pyval \<Rightarrow> extraction list \<Rightarrow> string list" where
  "group_of k es = filter (\<lambda>t. t \<noteq> []) (map kept_text (filter (\<lambda>e. label_of e = k) es))"

text \<open>A label has a section when one of its records has a non-empty trimmed text.\<close>

definition has_section :: "extraction list \<Rightarrow> string \<Rightarrow> bool" where
  "has_section es l = list_ex (\<lambda>e. label_of e = PyStr l \<and> kept_text e \<noteq> []) es"

definition canonical :: "string list" where
  "canonical = [''summary'', ''key_point'', ''fact'']"

text \<open>
  The section of a label: its header, a colon and the items, one per line; the summary
  texts as they are, the items of every other label with a dash.
\<close>

definition section_of :: "string \<Rightarrow> string list \<Rightarrow> string" where
  "section_of l ts =
     (if l = ''summary'' then ''Summary:'' @ newline @ str_join newline ts
      else if l = ''key_point'' then ''Key points:'' @ newline @ bullets ts
      else if l = ''fact'' then ''Facts:'' @ newline @ bullets ts
      else str_title (str_replace CHR ''_'' CHR '' '' l) @ '':'' @ newline @ bullets ts)"

text \<open>
  The labels in the order of their sections: the canonical ones that have a section, then
  the others in the order of the strings.
\<close>

definition section_order :: "extraction list \<Rightarrow> string list" where
  "section_order es =
     filter (has_section es) canonical @
     sorted_list_of_set {l. l \<notin> set canonical \<and> has_section es l}"

text \<open>
  A condition under which the script does not raise: every text is a \<open>str\<close>, and so is
  the label of every record whose trimmed text is not empty. \<open>str_fields\<close> is the stronger
  condition that every attribute that is present is a \<open>str\<close>.
\<close>

definition well_typed :: "extraction list \<Rightarrow> bool" where
  "well_typed es =
     list_all (\<lambda>e. is_str (text_of e) \<and> (kept_text e = [] \<or> is_str (label_of e))) es"

definition str_fields :: "extraction list \<Rightarrow> bool" where
  "str_fields es =
     list_all (\<lambda>e. (case extraction_class e of None \<Rightarrow> True | Some v \<Rightarrow> is_str v) \<and>
                    (case extraction_text e of None \<Rightarrow> True | Some v \<Rightarrow> is_str v)) es"

text \<open>
  The credential as the specification words it when the values are trimmed before the
  first non-empty one is chosen.
\<close>

definition first_trimmed_key :: "environ \<Rightarrow> string" where
  "first_trimmed_key env =
     (case List.find (\<lambda>s. s \<noteq> [])
             (map str_strip (List.map_filter env [''LANGEXTRACT_API_KEY'', ''GOOGLE_API_KEY''])) of
        Some s \<Rightarrow> s
      | None \<Rightarrow> [])"

text \<open>The same condition on a result; it asks nothing of a result without records.\<close>

definition result_well_typed :: "result \<Rightarrow> bool" where
  "result_well_typed r =
     (case r of AnnotatedDocument (Some es) \<Rightarrow> well_typed es | _ \<Rightarrow> True)"


text \<open>A record of the engine with both attributes, as its \<open>Extraction\<close> objects have them.\<close>

definition str_extraction :: "string \<Rightarrow> string \<Rightarrow> extraction" where
  "str_extraction cls text =
     \<lparr>extraction_class = Some (PyStr cls), extraction_text = Some (PyStr text),
      str_of = ''Extraction''\<rparr>"

text \<open>Auxiliary notions of the proofs.\<close>

definition kept :: "extraction list \<Rightarrow> (pyval \<times> string) list" where
  "kept es = map (\<lambda>e. (label_of e, kept_text e)) (filter (\<lambda>e. kept_text e \<noteq> []) es)"

definition append_all :: "(pyval \<times> string) list \<Rightarrow> by_class \<Rightarrow> by_class" where
  "append_all kts d = fold (\<lambda>(k, t). setdefault_append k t) kts d"

definition by_class_of :: "extraction list \<Rightarrow> by_class" where
  "by_class_of es = append_all (kept es) []"

definition item_key :: "pyval \<times> string list \<Rightarrow> string" where
  "item_key x = str_value (fst x)"

definition other_section :: "pyval \<times> string list \<Rightarrow> string" where
  "other_section x =
     str_title (str_replace CHR ''_'' CHR '' '' (item_key x)) @ '':'' @ newline @ bullets (snd x)"

section \<open>Lemmas\<close>

subsection \<open>The grouping loop\<close>

lemma py_strip_str: "is_str v \<Longrightarrow> py_strip v = Inr (str_strip (str_value v))"
  by (cases v) (simp_all add: py_strip_def)

lemma py_strip_not_str: "\<not> is_str v \<Longrightarrow> py_strip v = Inl AttributeError"
  by (cases v) (simp_all add: py_strip_def)

lemma group_loop_ok:
  "list_all (\<lambda>e. is_str (text_of e)) es \<Longrightarrow> group_loop es d = Inr (append_all (kept es) d)"
proof (induction es arbitrary: d)
  case Nil
  show ?case by (simp add: kept_def append_all_def)
next
  case (Cons e es)
  from Cons.prems have s: "is_str (text_of e)" and rest: "list_all (\<lambda>e. is_str (text_of e)) es"
    by simp_all
  have p: "py_strip (getattr (extraction_text e) (PyStr (str_of e))) = Inr (kept_text e)"
    using py_strip_str [OF s] by (simp add: text_of_def kept_text_def)
  show ?case
    using Cons.IH [OF rest] p
    by (simp add: kept_def append_all_def label_of_def)
qed

lemma group_loop_err:
  "\<not> list_all (\<lambda>e. is_str (text_of e)) es \<Longrightarrow> group_loop es d = Inl AttributeError"
proof (induction es arbitrary: d)
  case Nil
  then show ?case by simp
next
  case (Cons e es)
  show ?case
  proof (cases "is_str (text_of e)")
    case True
    then have p: "py_strip (getattr (extraction_text e) (PyStr (str_of e))) = Inr (kept_text e)"
      using py_strip_str by (simp add: text_of_def kept_text_def)
    from True Cons.prems have "\<not> list_all (\<lambda>e. is_str (text_of e)) es" by simp
    then show ?thesis using Cons.IH p by simp
  next
    case False
    then show ?thesis using py_strip_not_str by (simp add: text_of_def)
  qed
qed

lemma map_of_setdefault_append:
  "map_of (setdefault_append k t d) k' =
     (if k' = k then Some ((case map_of d k of Some ts \<Rightarrow> ts | None \<Rightarrow> []) @ [t]) else map_of d k')"
  by (induction d) auto

lemma keys_setdefault_append:
  "map fst (setdefault_append k t d) = (if k \<in> set (map fst d) then map fst d else map fst d @ [k])"
  by (induction d) (force split: if_splits)+

lemma distinct_setdefault_append:
  "distinct (map fst d) \<Longrightarrow> distinct (map fst (setdefault_append k t d))"
  by (simp add: keys_setdefault_append)

lemma distinct_append_all:
  "distinct (map fst d) \<Longrightarrow> distinct (map fst (append_all kts d))"
  unfolding append_all_def
  by (induction kts arbitrary: d) (auto simp: distinct_setdefault_append)

lemma map_of_append_all:
  "map_of (append_all kts d) k =
     (case map_of d k of
        None \<Rightarrow> (if map snd (filter (\<lambda>p. fst p = k) kts) = [] then None
                 else Some (map snd (filter (\<lambda>p. fst p = k) kts)))
      | Some ts \<Rightarrow> Some (ts @ map snd (filter (\<lambda>p. fst p = k) kts)))"
  unfolding append_all_def
  by (induction kts arbitrary: d) (auto simp: map_of_setdefault_append split: option.splits)

lemma group_of_kept: "map snd (filter (\<lambda>p. fst p = k) (kept es)) = group_of k es"
  unfolding kept_def group_of_def
  by (induction es) auto

lemma map_of_by_class:
  "map_of (append_all (kept es) []) k = (if group_of k es = [] then None else Some (group_of k es))"
  by (simp add: map_of_append_all group_of_kept)

lemma item_less_str:
  "is_str (fst x) \<Longrightarrow> is_str (fst y) \<Longrightarrow> fst x \<noteq> fst y \<Longrightarrow>
     item_less x y = Inr (item_key x \<le> item_key y)"
  by (cases "fst x"; cases "fst y") (auto simp: item_less_def item_key_def)

lemma insort_py_str:
  "is_str (fst x) \<Longrightarrow> list_all (\<lambda>y. is_str (fst y)) ys \<Longrightarrow> fst x \<notin> set (map fst ys) \<Longrightarrow>
     insort_py x ys = Inr (insort_key item_key x ys)"
proof (induction ys)
  case Nil
  show ?case by simp
next
  case (Cons y ys)
  from Cons.prems have l: "item_less x y = Inr (item_key x \<le> item_key y)"
    by (intro item_less_str) auto
  from Cons.prems have "insort_py x ys = Inr (insort_key item_key x ys)"
    by (intro Cons.IH) auto
  with l show ?case by simp
qed

lemma sorted_py_str:
  "list_all (\<lambda>y. is_str (fst y)) d \<Longrightarrow> distinct (map fst d) \<Longrightarrow>
     sorted_py d = Inr (sort_key item_key d)"
proof (induction d)
  case Nil
  show ?case by simp
next
  case (Cons x d)
  from Cons.prems have ih: "sorted_py d = Inr (sort_key item_key d)"
    by (intro Cons.IH) auto
  have "insort_py x (sort_key item_key d) = Inr (insort_key item_key x (sort_key item_key d))"
    using Cons.prems by (intro insort_py_str) (auto simp: list_all_iff)
  with ih show ?case by simp
qed

lemma insort_py_set: "insort_py x ys = Inr r \<Longrightarrow> set r = insert x (set ys)"
proof (induction ys arbitrary: r)
  case Nil
  then show ?case by auto
next
  case (Cons y ys)
  show ?case
  proof (cases "item_less x y")
    case (Inl err)
    with Cons.prems show ?thesis by simp
  next
    case (Inr b)
    show ?thesis
    proof (cases b)
      case True
      with Inr Cons.prems show ?thesis by auto
    next
      case False
      with Inr Cons.prems obtain r' where r': "insort_py x ys = Inr r'" and r: "r = y # r'"
        by (cases "insort_py x ys") auto
      from Cons.IH [OF r'] r show ?thesis by auto
    qed
  qed
qed

lemma sorted_py_set: "sorted_py d = Inr r \<Longrightarrow> set r = set d"
proof (induction d arbitrary: r)
  case Nil
  then show ?case by simp
next
  case (Cons x d)
  from Cons.prems obtain r' where r': "sorted_py d = Inr r'" and i: "insort_py x r' = Inr r"
    by (cases "sorted_py d") auto
  from insort_py_set [OF i] Cons.IH [OF r'] show ?case by simp
qed

lemma other_parts_ok:
  "list_all (\<lambda>y. is_str (fst y)) items \<Longrightarrow>
     other_parts items parts =
       Inr (parts @ map other_section (filter (\<lambda>x. item_key x \<notin> set canonical) items))"
proof (induction items arbitrary: parts)
  case Nil
  show ?case by simp
next
  case (Cons x items)
  obtain k ts where x: "x = (k, ts)" by (cases x)
  from Cons.prems x obtain s where k: "k = PyStr s" by (cases k) auto
  from Cons.prems have "list_all (\<lambda>y. is_str (fst y)) items" by simp
  note ih = Cons.IH [OF this]
  show ?case
    by (simp add: x k ih other_section_def item_key_def canonical_def)
qed

lemma other_parts_Inr:
  "other_parts items parts = Inr ps \<Longrightarrow> list_all (\<lambda>y. is_str (fst y)) items"
proof (induction items arbitrary: parts)
  case Nil
  show ?case by simp
next
  case (Cons x items)
  obtain k ts where x: "x = (k, ts)" by (cases x)
  show ?case
  proof (cases k)
    case (PyStr s)
    with Cons.prems x have "\<exists>p. other_parts items p = Inr ps"
      by (auto split: if_splits)
    then show ?thesis using Cons.IH x PyStr by auto
  next
    case PyNone
    with Cons.prems x show ?thesis by simp
  next
    case (PyInt i)
    with Cons.prems x show ?thesis by simp
  qed
qed

lemma map_of_by_class_of:
  "map_of (by_class_of es) k = (if group_of k es = [] then None else Some (group_of k es))"
  by (simp add: by_class_of_def map_of_by_class)

lemma distinct_by_class_of: "distinct (map fst (by_class_of es))"
  unfolding by_class_of_def by (rule distinct_append_all) simp

lemma by_class_of_mem:
  "(k, ts) \<in> set (by_class_of es) \<longleftrightarrow> ts = group_of k es \<and> group_of k es \<noteq> []"
  using map_of_eq_Some_iff [OF distinct_by_class_of, of es k ts]
  by (auto simp: map_of_by_class_of split: if_splits)

lemma group_of_nonempty:
  "group_of k es \<noteq> [] \<longleftrightarrow> (\<exists>e \<in> set es. label_of e = k \<and> kept_text e \<noteq> [])"
  by (auto simp: group_of_def filter_empty_conv)

lemma has_section_group: "has_section es l \<longleftrightarrow> group_of (PyStr l) es \<noteq> []"
  by (auto simp: has_section_def list_ex_iff group_of_nonempty)

lemma section_order_group:
  "section_order es =
     filter (\<lambda>l. group_of (PyStr l) es \<noteq> []) canonical @
     sorted_list_of_set {l. l \<notin> set canonical \<and> group_of (PyStr l) es \<noteq> []}"
proof -
  have "has_section es = (\<lambda>l. group_of (PyStr l) es \<noteq> [])"
    by (rule ext) (simp add: has_section_group)
  then show ?thesis by (simp add: section_order_def)
qed

lemma by_class_of_keys_str:
  assumes "well_typed es"
  shows "list_all (\<lambda>y. is_str (fst y)) (by_class_of es)"
proof -
  have "is_str k" if "(k, ts) \<in> set (by_class_of es)" for k ts
  proof -
    from that have "group_of k es \<noteq> []" by (simp add: by_class_of_mem)
    then obtain e where "e \<in> set es" "label_of e = k" "kept_text e \<noteq> []"
      by (auto simp: group_of_nonempty)
    with assms show ?thesis by (auto simp: well_typed_def list_all_iff)
  qed
  then show ?thesis by (auto simp: list_all_iff)
qed

lemma canonical_parts_by_class_of:
  "canonical_parts (by_class_of es) =
     map (\<lambda>l. section_of l (group_of (PyStr l) es))
       (filter (\<lambda>l. group_of (PyStr l) es \<noteq> []) canonical)"
  by (simp add: canonical_parts_def get_truthy_def subscript_def map_of_by_class_of
      canonical_def section_of_def)

lemma other_section_by_class_of:
  assumes "x \<in> set (by_class_of es)" and "is_str (fst x)" and "item_key x \<notin> set canonical"
  shows "other_section x = section_of (item_key x) (group_of (PyStr (item_key x)) es)"
proof -
  obtain k ts where x: "x = (k, ts)" by (cases x)
  from assms(2) x obtain l where k: "k = PyStr l" by (cases k) auto
  from assms(1) x have ts: "ts = group_of k es" by (simp add: by_class_of_mem)
  from assms(3) show ?thesis
    by (simp add: x k ts other_section_def section_of_def item_key_def canonical_def)
qed

lemma str_keys:
  assumes "list_all (\<lambda>y. is_str (fst y)) d"
  shows "map fst d = map (PyStr \<circ> item_key) d"
proof (rule map_cong [OF refl])
  fix x assume "x \<in> set d"
  with assms have "is_str (fst x)" by (simp add: list_all_iff)
  then show "fst x = (PyStr \<circ> item_key) x" by (cases "fst x") (auto simp: item_key_def)
qed

lemma sorted_keys_by_class_of:
  assumes wt: "well_typed es"
  shows "filter (\<lambda>l. l \<notin> set canonical) (map item_key (sort_key item_key (by_class_of es))) =
         sorted_list_of_set {l. l \<notin> set canonical \<and> group_of (PyStr l) es \<noteq> []}"
proof -
  let ?d = "by_class_of es"
  let ?ks = "filter (\<lambda>l. l \<notin> set canonical) (map item_key (sort_key item_key ?d))"
  have strs: "list_all (\<lambda>y. is_str (fst y)) ?d" by (rule by_class_of_keys_str [OF wt])
  have "distinct (map (PyStr \<circ> item_key) ?d)"
    using distinct_by_class_of [of es] str_keys [OF strs] by simp
  then have "distinct (map item_key ?d)" by (simp add: distinct_map inj_on_def)
  then have "distinct (map item_key (sort_key item_key ?d))"
    by (simp add: distinct_map)
  then have d: "distinct ?ks" by simp
  have s: "sorted ?ks" by (simp add: sorted_sort_key sorted_wrt_filter)
  have "set (map item_key ?d) = {l. group_of (PyStr l) es \<noteq> []}"
  proof (intro set_eqI iffI)
    fix l assume "l \<in> set (map item_key ?d)"
    then obtain x where x: "x \<in> set ?d" "item_key x = l" by auto
    with strs have "is_str (fst x)" by (simp add: list_all_iff)
    with x have "fst x = PyStr l" by (cases "fst x") (auto simp: item_key_def)
    with x(1) have "(PyStr l, snd x) \<in> set ?d" by (metis prod.collapse)
    then show "l \<in> {l. group_of (PyStr l) es \<noteq> []}" by (simp add: by_class_of_mem)
  next
    fix l assume "l \<in> {l. group_of (PyStr l) es \<noteq> []}"
    then have "(PyStr l, group_of (PyStr l) es) \<in> set ?d" by (simp add: by_class_of_mem)
    then have "item_key (PyStr l, group_of (PyStr l) es) \<in> set (map item_key ?d)"
      by (intro imageI [of _ "set ?d" item_key, folded set_map])
    then show "l \<in> set (map item_key ?d)" by (simp add: item_key_def)
  qed
  then have "set ?ks = {l. l \<notin> set canonical \<and> group_of (PyStr l) es \<noteq> []}" by auto
  with sorted_list_of_set.idem_if_sorted_distinct [OF s d] show ?thesis by simp
qed

lemma flatten_parts_ok:
  assumes wt: "well_typed es"
  shows "flatten_parts es = Inr (map (\<lambda>l. section_of l (group_of (PyStr l) es)) (section_order es))"
proof -
  let ?d = "by_class_of es"
  let ?items = "sort_key item_key ?d"
  from wt have "list_all (\<lambda>e. is_str (text_of e)) es"
    by (simp add: well_typed_def list_all_iff)
  then have g: "group_loop es [] = Inr ?d" by (simp add: group_loop_ok by_class_of_def)
  have strs: "list_all (\<lambda>y. is_str (fst y)) ?d" by (rule by_class_of_keys_str [OF wt])
  have s: "sorted_py ?d = Inr ?items"
    by (rule sorted_py_str [OF strs distinct_by_class_of])
  have strs': "list_all (\<lambda>y. is_str (fst y)) ?items" using strs by (simp add: list_all_iff)
  have "map other_section (filter (\<lambda>x. item_key x \<notin> set canonical) ?items) =
        map (\<lambda>x. section_of (item_key x) (group_of (PyStr (item_key x)) es))
          (filter (\<lambda>x. item_key x \<notin> set canonical) ?items)"
    using strs by (intro map_cong [OF refl] other_section_by_class_of) (auto simp: list_all_iff)
  also have "\<dots> = map (\<lambda>l. section_of l (group_of (PyStr l) es))
      (filter (\<lambda>l. l \<notin> set canonical) (map item_key ?items))"
    by (simp add: filter_map comp_def)
  finally have o: "map other_section (filter (\<lambda>x. item_key x \<notin> set canonical) ?items) =
      map (\<lambda>l. section_of l (group_of (PyStr l) es))
        (sorted_list_of_set {l. l \<notin> set canonical \<and> group_of (PyStr l) es \<noteq> []})"
    by (simp only: sorted_keys_by_class_of [OF wt])
  show ?thesis
    unfolding flatten_parts_def
    by (simp add: g s other_parts_ok [OF strs'] o canonical_parts_by_class_of section_order_group)
qed

lemma flatten_parts_Inr:
  assumes "flatten_parts es = Inr ps"
  shows "well_typed es"
proof -
  have t: "list_all (\<lambda>e. is_str (text_of e)) es"
  proof (rule ccontr)
    assume "\<not> ?thesis"
    from group_loop_err [OF this, of "[]"] assms show False by (simp add: flatten_parts_def)
  qed
  then have g: "group_loop es [] = Inr (by_class_of es)"
    by (simp add: group_loop_ok by_class_of_def)
  from assms g obtain items where s: "sorted_py (by_class_of es) = Inr items"
    and o: "other_parts items (canonical_parts (by_class_of es)) = Inr ps"
    by (cases "sorted_py (by_class_of es)") (auto simp: flatten_parts_def)
  from other_parts_Inr [OF o] sorted_py_set [OF s]
  have keys: "list_all (\<lambda>y. is_str (fst y)) (by_class_of es)" by (simp add: list_all_iff)
  have "kept_text e = [] \<or> is_str (label_of e)" if "e \<in> set es" for e
  proof (cases "kept_text e = []")
    case False
    with that have "group_of (label_of e) es \<noteq> []" by (auto simp: group_of_nonempty)
    then have "(label_of e, group_of (label_of e) es) \<in> set (by_class_of es)"
      by (simp add: by_class_of_mem)
    with keys show ?thesis by (auto simp: list_all_iff)
  qed simp
  with t show ?thesis by (auto simp: well_typed_def list_all_iff)
qed

subsection \<open>The output as a whole\<close>

lemma flatten_parts_Nil: "flatten_parts [] = Inr []"
  by (simp add: flatten_parts_def canonical_parts_def get_truthy_def)

lemma flatten_extractions_parts:
  "flatten_extractions (AnnotatedDocument (Some es)) =
     (case flatten_parts es of
        Inl err \<Rightarrow> Inl err
      | Inr parts \<Rightarrow> Inr (str_join (newline @ newline) parts))"
proof (cases "es = []")
  case True
  then show ?thesis by (simp add: flatten_extractions_def flatten_parts_Nil)
next
  case False
  then show ?thesis
    by (cases "flatten_parts es") (auto simp: flatten_extractions_def)
qed

lemma flatten_extractions_ok:
  "well_typed es \<Longrightarrow>
     flatten_extractions (AnnotatedDocument (Some es)) =
       Inr (str_join (newline @ newline)
             (map (\<lambda>l. section_of l (group_of (PyStr l) es)) (section_order es)))"
  by (simp add: flatten_extractions_parts flatten_parts_ok)

lemma flatten_extractions_Inr:
  "flatten_extractions (AnnotatedDocument (Some es)) = Inr out \<Longrightarrow> well_typed es"
  by (cases "flatten_parts es") (auto simp: flatten_extractions_parts dest: flatten_parts_Inr)

lemma group_loop_Inr:
  assumes "group_loop es [] = Inr d"
  shows "d = by_class_of es" and "list_all (\<lambda>e. is_str (text_of e)) es"
proof -
  show t: "list_all (\<lambda>e. is_str (text_of e)) es"
  proof (rule ccontr)
    assume "\<not> ?thesis"
    from group_loop_err [OF this, of "[]"] assms show False by simp
  qed
  from group_loop_ok [OF t, of "[]"] assms show "d = by_class_of es"
    by (simp add: by_class_of_def)
qed

lemma str_fields_well_typed: "str_fields es \<Longrightarrow> well_typed es"
  by (auto simp: str_fields_def well_typed_def list_all_iff label_of_def text_of_def getattr_def
      split: option.splits)

lemma has_section_set: "has_section es l \<longleftrightarrow> (\<exists>e \<in> set es. label_of e = PyStr l \<and> kept_text e \<noteq> [])"
  by (simp add: has_section_def list_ex_iff)

lemma section_order_set_cong: "set es' = set es \<Longrightarrow> section_order es' = section_order es"
proof -
  assume "set es' = set es"
  then have "has_section es' = has_section es" by (intro ext) (simp add: has_section_set)
  then show ?thesis by (simp add: section_order_def)
qed

lemma finite_other_labels: "finite {l. l \<notin> set canonical \<and> has_section es l}"
proof (rule finite_subset)
  show "{l. l \<notin> set canonical \<and> has_section es l} \<subseteq> (\<lambda>e. str_value (label_of e)) ` set es"
    by (force simp: has_section_set)
qed simp

lemma set_section_order: "set (section_order es) = {l. has_section es l}"
proof -
  have "l \<in> set canonical \<or> l \<notin> set canonical" for l by simp
  then show ?thesis
    by (auto simp: section_order_def finite_other_labels)
qed

lemma distinct_section_order: "distinct (section_order es)"
proof -
  let ?A = "{l. l \<notin> set canonical \<and> has_section es l}"
  have "distinct canonical" by (simp add: canonical_def)
  then have 1: "distinct (filter (has_section es) canonical)" by simp
  have 2: "set (sorted_list_of_set ?A) = ?A" by (simp add: finite_other_labels)
  have 3: "set (filter (has_section es) canonical) \<inter> ?A = {}" by auto
  show ?thesis unfolding section_order_def distinct_append using 1 2 3 by simp
qed


lemma str_strip_replicate: "\<not> isspace c \<Longrightarrow> str_strip (replicate n c) = replicate n c"
  by (simp add: str_strip_def)

lemma str_strip_Nil: "str_strip [] = []"
  by (simp add: str_strip_def)

lemma result_well_typed_returns:
  "result_well_typed r \<Longrightarrow> \<exists>out. flatten_extractions r = Inr out"
proof (cases r)
  case NoExtractionsAttr
  then show ?thesis by (simp add: flatten_extractions_def)
next
  case (AnnotatedDocument x)
  assume wt: "result_well_typed r"
  show ?thesis
  proof (cases x)
    case None
    with AnnotatedDocument show ?thesis by (simp add: flatten_extractions_def)
  next
    case (Some es)
    with AnnotatedDocument wt have "well_typed es" by (simp add: result_well_typed_def)
    from flatten_extractions_ok [OF this] AnnotatedDocument Some show ?thesis by simp
  qed
qed

lemma section_order_blank:
  assumes "list_all (\<lambda>e. kept_text e = []) es"
  shows "section_order es = []"
proof -
  from assms have "\<not> has_section es l" for l
    by (auto simp: has_section_set list_all_iff)
  then show ?thesis by (simp add: section_order_def)
qed

subsection \<open>Evaluation\<close>

lemmas flatten_eval = flatten_extractions_def flatten_parts_def getattr_def py_strip_def
  str_strip_def isspace_def canonical_parts_def get_truthy_def subscript_def bullets_def
  newline_def item_less_def str_title_def str_replace_def iscased_def totitle_def tolower_def
  lower_letters_def upper_letters_def str_extraction_def

section \<open>The claims\<close>

subsection \<open>C5: on which inputs \<open>flatten_extractions\<close> returns\<close>

text \<open>
  C5, as the specification states it: the normalizer never raises, whatever it is given,
  records with malformed fields included. This fails: on a record whose
  \<open>extraction_text\<close> is \<open>None\<close>, line 101 calls \<open>strip\<close> on \<open>None\<close> and raises an
  \<open>AttributeError\<close>.
\<close>

theorem normalize_raises_on_malformed_text:
  "flatten_extractions
     (AnnotatedDocument
        (Some [\<lparr>extraction_class = Some (PyStr ''fact''), extraction_text = Some PyNone,
                str_of = ''Extraction''\<rparr>])) = Inl AttributeError"
  by (simp add: flatten_eval)

text \<open>
  C5, amended: an object without an \<open>extractions\<close> attribute, \<open>extractions = None\<close> and the
  empty sequence give exactly the empty string. On a sequence of records the normalizer
  returns a string, and does not raise, whenever every attribute that is present is a
  \<open>str\<close>: an absent attribute never makes it raise. More generally it returns whenever
  every text is a \<open>str\<close> and every record whose trimmed text is not empty has a \<open>str\<close>
  label. Records whose trimmed text is empty give no item, and when all trimmed texts are
  empty the result is the empty string.
\<close>

theorem normalize_total_on_strings:
  "flatten_extractions NoExtractionsAttr = Inr [] \<and>
   flatten_extractions (AnnotatedDocument None) = Inr [] \<and>
   flatten_extractions (AnnotatedDocument (Some [])) = Inr [] \<and>
   (str_fields es \<longrightarrow> (\<exists>out. flatten_extractions (AnnotatedDocument (Some es)) = Inr out)) \<and>
   (well_typed es \<longrightarrow> (\<exists>out. flatten_extractions (AnnotatedDocument (Some es)) = Inr out)) \<and>
   (well_typed es \<and> list_all (\<lambda>e. kept_text e = []) es \<longrightarrow>
      flatten_extractions (AnnotatedDocument (Some es)) = Inr [])"
proof -
  have 1: "flatten_extractions NoExtractionsAttr = Inr []"
    and 2: "flatten_extractions (AnnotatedDocument None) = Inr []"
    and 3: "flatten_extractions (AnnotatedDocument (Some [])) = Inr []"
    by (simp_all add: flatten_extractions_def)
  have 5: "well_typed es \<longrightarrow> (\<exists>out. flatten_extractions (AnnotatedDocument (Some es)) = Inr out)"
    by (simp add: flatten_extractions_ok)
  have 4: "str_fields es \<longrightarrow> (\<exists>out. flatten_extractions (AnnotatedDocument (Some es)) = Inr out)"
    using 5 str_fields_well_typed [of es] by blast
  have 6: "well_typed es \<and> list_all (\<lambda>e. kept_text e = []) es \<longrightarrow>
      flatten_extractions (AnnotatedDocument (Some es)) = Inr []"
    by (simp add: flatten_extractions_ok section_order_blank)
  from 1 2 3 4 5 6 show ?thesis by simp
qed

theorem normalize_total_on_strings_witness:
  "str_fields [\<lparr>extraction_class = None, extraction_text = None, str_of = '' ''\<rparr>,
               \<lparr>extraction_class = Some (PyStr ''fact''), extraction_text = Some (PyStr ''a''),
                str_of = ''Extraction''\<rparr>] \<and>
   (\<exists>out. flatten_extractions
            (AnnotatedDocument
               (Some [\<lparr>extraction_class = None, extraction_text = None, str_of = '' ''\<rparr>,
                      \<lparr>extraction_class = Some (PyStr ''fact''), extraction_text = Some (PyStr ''a''),
                       str_of = ''Extraction''\<rparr>])) = Inr out) \<and>
   flatten_extractions
     (AnnotatedDocument
        (Some [\<lparr>extraction_class = None, extraction_text = None, str_of = '' ''\<rparr>,
               \<lparr>extraction_class = Some (PyStr ''fact''), extraction_text = Some (PyStr ''  ''),
                str_of = ''Extraction''\<rparr>])) = Inr []"
proof -
  let ?es = "[\<lparr>extraction_class = None, extraction_text = None, str_of = '' ''\<rparr>,
              \<lparr>extraction_class = Some (PyStr ''fact''), extraction_text = Some (PyStr ''a''),
               str_of = ''Extraction''\<rparr>]"
  let ?bs = "[\<lparr>extraction_class = None, extraction_text = None, str_of = '' ''\<rparr>,
              \<lparr>extraction_class = Some (PyStr ''fact''), extraction_text = Some (PyStr ''  ''),
               str_of = ''Extraction''\<rparr>]"
  have h: "str_fields ?es" by (simp add: str_fields_def)
  have w: "well_typed ?bs"
    by (simp add: well_typed_def text_of_def label_of_def getattr_def)
  have b: "list_all (\<lambda>e. kept_text e = []) ?bs"
    by (simp add: kept_text_def text_of_def getattr_def str_strip_def isspace_def)
  from normalize_total_on_strings [of ?es] h have e:
    "\<exists>out. flatten_extractions (AnnotatedDocument (Some ?es)) = Inr out" by blast
  from normalize_total_on_strings [of ?bs] w b have f:
    "flatten_extractions (AnnotatedDocument (Some ?bs)) = Inr []" by blast
  from h e f show ?thesis by (intro conjI)
qed

subsection \<open>C1: the order of the sections\<close>

text \<open>
  C1: the normalizer returns on every sequence of records with \<open>str\<close> texts and \<open>str\<close>
  labels (on every \<open>well_typed\<close> sequence), and whenever it returns, its output is the
  sections of the labels of \<open>section_order\<close>, joined: first those of \<open>summary\<close>,
  \<open>key_point\<close> and \<open>fact\<close> that have a non-empty group, in this order, then the sections
  of all other labels in the lexicographic order of the label strings. The order depends
  on the set of records only: a permutation of the records gives the same order of
  sections.
\<close>

theorem sections_in_fixed_order:
  "(well_typed es \<longrightarrow>
      flatten_extractions (AnnotatedDocument (Some es)) =
        Inr (str_join (newline @ newline)
               (map (\<lambda>l. section_of l (group_of (PyStr l) es)) (section_order es)))) \<and>
   (flatten_extractions (AnnotatedDocument (Some es)) = Inr out \<longrightarrow>
      out = str_join (newline @ newline)
              (map (\<lambda>l. section_of l (group_of (PyStr l) es)) (section_order es))) \<and>
   section_order es =
     filter (has_section es) [''summary'', ''key_point'', ''fact''] @
     sorted_list_of_set {l. l \<notin> {''summary'', ''key_point'', ''fact''} \<and> has_section es l} \<and>
   (mset es' = mset es \<longrightarrow> section_order es' = section_order es)"
proof -
  have 0: "well_typed es \<longrightarrow>
      flatten_extractions (AnnotatedDocument (Some es)) =
        Inr (str_join (newline @ newline)
               (map (\<lambda>l. section_of l (group_of (PyStr l) es)) (section_order es)))"
    by (simp add: flatten_extractions_ok)
  have 1: "flatten_extractions (AnnotatedDocument (Some es)) = Inr out \<longrightarrow>
      out = str_join (newline @ newline)
              (map (\<lambda>l. section_of l (group_of (PyStr l) es)) (section_order es))"
  proof
    assume r: "flatten_extractions (AnnotatedDocument (Some es)) = Inr out"
    then have "well_typed es" by (rule flatten_extractions_Inr)
    from flatten_extractions_ok [OF this] r
    show "out = str_join (newline @ newline)
              (map (\<lambda>l. section_of l (group_of (PyStr l) es)) (section_order es))"
      by simp
  qed
  have 2: "section_order es =
           filter (has_section es) [''summary'', ''key_point'', ''fact''] @
           sorted_list_of_set
             {l. l \<notin> {''summary'', ''key_point'', ''fact''} \<and> has_section es l}"
    by (simp add: section_order_def canonical_def)
  have 3: "mset es' = mset es \<longrightarrow> section_order es' = section_order es"
    by (auto dest: mset_eq_setD intro: section_order_set_cong)
  from 0 1 2 3 show ?thesis by simp
qed

theorem sections_in_fixed_order_witness:
  "flatten_extractions
     (AnnotatedDocument
        (Some [str_extraction ''foo_bar'' ''d'', str_extraction ''fact'' ''c'',
               str_extraction ''key_point'' ''b'', str_extraction ''summary'' ''a''])) =
     Inr ''Summary:\<newline>a\<newline>\<newline>Key points:\<newline>- b\<newline>\<newline>Facts:\<newline>- c\<newline>\<newline>Foo Bar:\<newline>- d'' \<and>
   section_order
     [str_extraction ''summary'' ''a'', str_extraction ''key_point'' ''b'',
      str_extraction ''fact'' ''c'', str_extraction ''foo_bar'' ''d''] =
   section_order
     [str_extraction ''foo_bar'' ''d'', str_extraction ''fact'' ''c'',
      str_extraction ''key_point'' ''b'', str_extraction ''summary'' ''a''] \<and>
   str_join (newline @ newline)
     (map (\<lambda>l. section_of l (group_of (PyStr l)
                  [str_extraction ''foo_bar'' ''d'', str_extraction ''fact'' ''c'',
                   str_extraction ''key_point'' ''b'', str_extraction ''summary'' ''a'']))
        (section_order
           [str_extraction ''foo_bar'' ''d'', str_extraction ''fact'' ''c'',
            str_extraction ''key_point'' ''b'', str_extraction ''summary'' ''a''])) =
     ''Summary:\<newline>a\<newline>\<newline>Key points:\<newline>- b\<newline>\<newline>Facts:\<newline>- c\<newline>\<newline>Foo Bar:\<newline>- d'' \<and>
   flatten_extractions
     (AnnotatedDocument (Some [str_extraction ''zebra'' ''z'', str_extraction ''alpha'' ''y''])) =
     Inr ''Alpha:\<newline>- y\<newline>\<newline>Zebra:\<newline>- z''"
proof -
  let ?es = "[str_extraction ''foo_bar'' ''d'', str_extraction ''fact'' ''c'',
              str_extraction ''key_point'' ''b'', str_extraction ''summary'' ''a'']"
  let ?es' = "[str_extraction ''summary'' ''a'', str_extraction ''key_point'' ''b'',
               str_extraction ''fact'' ''c'', str_extraction ''foo_bar'' ''d'']"
  let ?out = "''Summary:\<newline>a\<newline>\<newline>Key points:\<newline>- b\<newline>\<newline>Facts:\<newline>- c\<newline>\<newline>Foo Bar:\<newline>- d''"
  have h: "flatten_extractions (AnnotatedDocument (Some ?es)) = Inr ?out"
    by (simp add: flatten_eval)
  have m: "mset ?es' = mset ?es" by (simp add: add.commute add.left_commute)
  have z: "flatten_extractions
     (AnnotatedDocument (Some [str_extraction ''zebra'' ''z'', str_extraction ''alpha'' ''y''])) =
     Inr ''Alpha:\<newline>- y\<newline>\<newline>Zebra:\<newline>- z''"
    by (simp add: flatten_eval)
  from sections_in_fixed_order [of ?es ?out ?es'] m h z show ?thesis by metis
qed

subsection \<open>C2: the format of a section\<close>



subsection \<open>C8: the groups\<close>

text \<open>
  C8: the grouping loop ends without raising when every text is a \<open>str\<close>, and when it
  ends, \<open>by_class\<close> maps every label to the trimmed texts of the records with this label,
  in the order of the records (nothing is sorted inside a group), without the records
  whose trimmed text is empty; a label all of whose texts are empty is no key of
  \<open>by_class\<close>. The output has exactly one section for every label with a non-empty group,
  so a group left empty produces no section.
\<close>

theorem stable_grouping:
  "(list_all (\<lambda>e. is_str (text_of e)) es \<longrightarrow> (\<exists>d. group_loop es [] = Inr d)) \<and>
   (group_loop es [] = Inr d \<longrightarrow>
      map_of d k = (if group_of k es = [] then None else Some (group_of k es)) \<and>
      list_all (\<lambda>e. text_of e = PyStr (str_value (text_of e))) es \<and>
      distinct (map fst d)) \<and>
   group_of k es =
     filter (\<lambda>t. t \<noteq> []) (map kept_text (filter (\<lambda>e. label_of e = k) es)) \<and>
   (flatten_parts es = Inr ps \<longrightarrow>
      ps = map (\<lambda>l. section_of l (group_of (PyStr l) es)) (section_order es) \<and>
      distinct (section_order es) \<and>
      (l \<in> set (section_order es)) = (group_of (PyStr l) es \<noteq> []))"
proof -
  have 0: "list_all (\<lambda>e. is_str (text_of e)) es \<longrightarrow> (\<exists>d. group_loop es [] = Inr d)"
    by (simp add: group_loop_ok)
  have 1: "group_loop es [] = Inr d \<longrightarrow>
      map_of d k = (if group_of k es = [] then None else Some (group_of k es)) \<and>
      list_all (\<lambda>e. text_of e = PyStr (str_value (text_of e))) es \<and>
      distinct (map fst d)"
  proof
    assume g: "group_loop es [] = Inr d"
    from group_loop_Inr [OF g] have d: "d = by_class_of es"
      and t: "list_all (\<lambda>e. is_str (text_of e)) es" by simp_all
    have a: "map_of d k = (if group_of k es = [] then None else Some (group_of k es))"
      by (simp add: d map_of_by_class_of)
    have "text_of e = PyStr (str_value (text_of e))" if "is_str (text_of e)" for e
      using that by (cases "text_of e") simp_all
    with t have b: "list_all (\<lambda>e. text_of e = PyStr (str_value (text_of e))) es"
      by (simp add: list_all_iff)
    have c: "distinct (map fst d)" by (simp add: d distinct_by_class_of)
    from a b c show "map_of d k = (if group_of k es = [] then None else Some (group_of k es)) \<and>
      list_all (\<lambda>e. text_of e = PyStr (str_value (text_of e))) es \<and>
      distinct (map fst d)" by simp
  qed
  have 2: "group_of k es =
           filter (\<lambda>t. t \<noteq> []) (map kept_text (filter (\<lambda>e. label_of e = k) es))"
    by (simp add: group_of_def)
  have 3: "flatten_parts es = Inr ps \<longrightarrow>
            ps = map (\<lambda>l. section_of l (group_of (PyStr l) es)) (section_order es) \<and>
            distinct (section_order es) \<and>
            (l \<in> set (section_order es)) = (group_of (PyStr l) es \<noteq> [])"
  proof
    assume p: "flatten_parts es = Inr ps"
    then have "well_typed es" by (rule flatten_parts_Inr)
    from flatten_parts_ok [OF this] p
    have "ps = map (\<lambda>l. section_of l (group_of (PyStr l) es)) (section_order es)" by simp
    then show "ps = map (\<lambda>l. section_of l (group_of (PyStr l) es)) (section_order es) \<and>
            distinct (section_order es) \<and>
            (l \<in> set (section_order es)) = (group_of (PyStr l) es \<noteq> [])"
      by (simp add: distinct_section_order set_section_order has_section_group)
  qed
  from 0 1 2 3 show ?thesis by simp
qed

theorem stable_grouping_witness:
  "group_loop
     [str_extraction ''fact'' ''b'', str_extraction ''note'' ''  '', str_extraction ''fact'' '' '',
      str_extraction ''fact'' '' a '']
     [] = Inr [(PyStr ''fact'', [''b'', ''a''])] \<and>
   flatten_parts
     [str_extraction ''fact'' ''b'', str_extraction ''note'' ''  '', str_extraction ''fact'' '' '',
      str_extraction ''fact'' '' a ''] = Inr [''Facts:\<newline>- b\<newline>- a''] \<and>
   group_of (PyStr ''fact'')
     [str_extraction ''fact'' ''b'', str_extraction ''note'' ''  '', str_extraction ''fact'' '' '',
      str_extraction ''fact'' '' a ''] = [''b'', ''a''] \<and>
   group_of (PyStr ''note'')
     [str_extraction ''fact'' ''b'', str_extraction ''note'' ''  '', str_extraction ''fact'' '' '',
      str_extraction ''fact'' '' a ''] = [] \<and>
   ''note'' \<notin> set (section_order
     [str_extraction ''fact'' ''b'', str_extraction ''note'' ''  '', str_extraction ''fact'' '' '',
      str_extraction ''fact'' '' a ''])"
proof -
  let ?es = "[str_extraction ''fact'' ''b'', str_extraction ''note'' ''  '',
              str_extraction ''fact'' '' '', str_extraction ''fact'' '' a '']"
  let ?d = "[(PyStr ''fact'', [''b'', ''a''])]"
  let ?ps = "[''Facts:\<newline>- b\<newline>- a'']"
  have h: "group_loop ?es [] = Inr ?d"
    by (simp add: flatten_eval)
  have p: "flatten_parts ?es = Inr ?ps"
    by (simp add: flatten_eval)
  have n: "map_of ?d (PyStr ''note'') =
      (if group_of (PyStr ''note'') ?es = [] then None else Some (group_of (PyStr ''note'') ?es))"
    using stable_grouping [of ?es ?d "PyStr ''note''" ?ps "''note''"] h by blast
  have f: "map_of ?d (PyStr ''fact'') =
      (if group_of (PyStr ''fact'') ?es = [] then None else Some (group_of (PyStr ''fact'') ?es))"
    using stable_grouping [of ?es ?d "PyStr ''fact''" ?ps "''note''"] h by blast
  have s: "(''note'' \<in> set (section_order ?es)) = (group_of (PyStr ''note'') ?es \<noteq> [])"
    using stable_grouping [of ?es ?d "PyStr ''note''" ?ps "''note''"] p by blast
  have gn: "group_of (PyStr ''note'') ?es = []"
    using n by (simp split: if_splits)
  have gf: "group_of (PyStr ''fact'') ?es = [''b'', ''a'']"
    using f by (simp split: if_splits)
  have ns: "''note'' \<notin> set (section_order ?es)"
    using s gn by simp
  from h p gf gn ns show ?thesis by (intro conjI)
qed

subsection \<open>C10: a record without a label\<close>

text \<open>
  C10: a record that has no \<open>extraction_class\<close> attribute gets the label \<open>fact\<close>. On every
  sequence of records on which the normalizer does not raise, the non-empty trimmed text
  of such a record is an item of the group of \<open>fact\<close>, which \<open>by_class\<close> holds under the
  key \<open>fact\<close>, and the \<open>Facts\<close> section with the items of this group as bullets is one of
  the sections of the output: the record is neither dropped nor given a section of its
  own.
\<close>

theorem missing_class_is_fact:
  assumes "extraction_class e = None" and "e \<in> set es" and "kept_text e \<noteq> []"
    and "well_typed es"
  shows "label_of e = PyStr ''fact'' \<and>
         kept_text e \<in> set (group_of (PyStr ''fact'') es) \<and>
         (\<exists>d. group_loop es [] = Inr d \<and>
              map_of d (PyStr ''fact'') = Some (group_of (PyStr ''fact'') es)) \<and>
         (\<exists>ps. flatten_parts es = Inr ps \<and>
               ''Facts:'' @ newline @
                 str_join newline (map (\<lambda>t. ''- '' @ t) (group_of (PyStr ''fact'') es)) \<in> set ps)"
proof -
  from assms(1) have l: "label_of e = PyStr ''fact''" by (simp add: label_of_def getattr_def)
  from assms(2,3) l have g: "kept_text e \<in> set (group_of (PyStr ''fact'') es)"
    by (auto simp: group_of_def)
  then have ne: "group_of (PyStr ''fact'') es \<noteq> []" by auto
  note wt = assms(4)
  then have "list_all (\<lambda>e. is_str (text_of e)) es" by (simp add: well_typed_def list_all_iff)
  then have "group_loop es [] = Inr (by_class_of es)"
    by (simp add: group_loop_ok by_class_of_def)
  moreover have "map_of (by_class_of es) (PyStr ''fact'') = Some (group_of (PyStr ''fact'') es)"
    using ne by (simp add: map_of_by_class_of)
  ultimately have d: "\<exists>d. group_loop es [] = Inr d \<and>
              map_of d (PyStr ''fact'') = Some (group_of (PyStr ''fact'') es)" by blast
  from ne have "''fact'' \<in> set (section_order es)"
    by (simp add: set_section_order has_section_group)
  then have "(\<lambda>l. section_of l (group_of (PyStr l) es)) ''fact'' \<in>
      (\<lambda>l. section_of l (group_of (PyStr l) es)) ` set (section_order es)"
    by (rule imageI)
  then have "section_of ''fact'' (group_of (PyStr ''fact'') es) \<in>
      set (map (\<lambda>l. section_of l (group_of (PyStr l) es)) (section_order es))"
    by simp
  then have "''Facts:'' @ newline @
           str_join newline (map (\<lambda>t. ''- '' @ t) (group_of (PyStr ''fact'') es)) \<in>
      set (map (\<lambda>l. section_of l (group_of (PyStr l) es)) (section_order es))"
    by (simp add: section_of_def bullets_def)
  with flatten_parts_ok [OF wt]
  have s: "\<exists>ps. flatten_parts es = Inr ps \<and>
               ''Facts:'' @ newline @
                 str_join newline (map (\<lambda>t. ''- '' @ t) (group_of (PyStr ''fact'') es)) \<in> set ps"
    by blast
  from l g d s show ?thesis by simp
qed

theorem missing_class_is_fact_witness:
  "extraction_class \<lparr>extraction_class = None, extraction_text = Some (PyStr '' x ''), str_of = ''E''\<rparr> = None \<and>
   flatten_parts
     [str_extraction ''fact'' ''a'',
      \<lparr>extraction_class = None, extraction_text = Some (PyStr '' x ''), str_of = ''E''\<rparr>] =
     Inr [''Facts:\<newline>- a\<newline>- x''] \<and>
   kept_text \<lparr>extraction_class = None, extraction_text = Some (PyStr '' x ''), str_of = ''E''\<rparr> = ''x'' \<and>
   ''x'' \<in> set (group_of (PyStr ''fact'')
     [str_extraction ''fact'' ''a'',
      \<lparr>extraction_class = None, extraction_text = Some (PyStr '' x ''), str_of = ''E''\<rparr>])"
proof -
  let ?e = "\<lparr>extraction_class = None, extraction_text = Some (PyStr '' x ''), str_of = ''E''\<rparr>"
  let ?es = "[str_extraction ''fact'' ''a'', ?e]"
  have c: "extraction_class ?e = None" by simp
  have m: "?e \<in> set ?es" by simp
  have k: "kept_text ?e = ''x''"
    by (simp add: kept_text_def text_of_def getattr_def str_strip_def isspace_def)
  then have k': "kept_text ?e \<noteq> []" by simp
  have w: "well_typed ?es"
    by (simp add: well_typed_def str_extraction_def text_of_def label_of_def getattr_def)
  have p: "flatten_parts ?es = Inr [''Facts:\<newline>- a\<newline>- x'']"
    by (simp add: flatten_eval)
  from missing_class_is_fact [OF c m k' w] c p k show ?thesis by simp
qed

subsection \<open>C6: empty input\<close>

text \<open>
  C6: when standard input is empty or only whitespace, the driver writes the diagnostic
  \<open>extract_structured: no input\<close> to the error stream, exits with status 1, writes nothing
  to standard output and does not call the engine.
\<close>

theorem empty_input_rejected:
  assumes "str_strip (stdin w) = []"
  shows "stdout (main w) = [] \<and>
         stderr (main w) = ''extract_structured: no input'' @ newline \<and>
         exit_status (ending (main w)) = 1 \<and>
         extract_calls (main w) = []"
  using assms by (simp add: main_def)

theorem empty_input_rejected_witness:
  "str_strip (stdin \<lparr>stdin = [CHR '' '', CHR 0x0A, CHR 0x09], environ = (\<lambda>v. None),
                      langextract = Some (\<lambda>kw. Inl ''unused'')\<rparr>) = [] \<and>
   stdout (main \<lparr>stdin = [CHR '' '', CHR 0x0A, CHR 0x09], environ = (\<lambda>v. None),
                  langextract = Some (\<lambda>kw. Inl ''unused'')\<rparr>) = [] \<and>
   exit_status (ending (main \<lparr>stdin = [CHR '' '', CHR 0x0A, CHR 0x09], environ = (\<lambda>v. None),
                  langextract = Some (\<lambda>kw. Inl ''unused'')\<rparr>)) = 1"
proof -
  let ?w = "\<lparr>stdin = [CHR '' '', CHR 0x0A, CHR 0x09], environ = (\<lambda>v. None),
             langextract = Some (\<lambda>kw. Inl ''unused'')\<rparr>"
  have h: "str_strip (stdin ?w) = []" by (simp add: str_strip_def isspace_def)
  from empty_input_rejected [OF h] h show ?thesis by simp
qed

subsection \<open>C7: a failing engine\<close>

text \<open>
  C7: on a non-empty input, when the call of the engine raises an \<open>Exception\<close> with the
  message \<open>msg\<close>, the driver writes \<open>extract_structured: extraction failed:\<close> and the
  message to the error stream, exits with status 1, writes nothing to standard output,
  and has called the engine exactly once: there is no second attempt.
\<close>

theorem engine_failure_reported:
  assumes "str_strip (stdin w) \<noteq> []"
    and "langextract w = Some extract"
    and "extract (extract_kwargs_of (environ w) (str_strip (stdin w))) = Inl msg"
  shows "stderr (main w) = ''extract_structured: extraction failed: '' @ msg @ newline \<and>
         exit_status (ending (main w)) = 1 \<and>
         stdout (main w) = [] \<and>
         extract_calls (main w) = [extract_kwargs_of (environ w) (str_strip (stdin w))]"
  using assms by (simp add: main_def Let_def)

theorem engine_failure_reported_witness:
  "stderr (main \<lparr>stdin = ''Hello world'', environ = (\<lambda>v. None),
                  langextract = Some (\<lambda>kw. Inl ''timeout'')\<rparr>) =
     ''extract_structured: extraction failed: timeout\<newline>'' \<and>
   exit_status (ending (main \<lparr>stdin = ''Hello world'', environ = (\<lambda>v. None),
                  langextract = Some (\<lambda>kw. Inl ''timeout'')\<rparr>)) = 1 \<and>
   stdout (main \<lparr>stdin = ''Hello world'', environ = (\<lambda>v. None),
                  langextract = Some (\<lambda>kw. Inl ''timeout'')\<rparr>) = [] \<and>
   length (extract_calls (main \<lparr>stdin = ''Hello world'', environ = (\<lambda>v. None),
                  langextract = Some (\<lambda>kw. Inl ''timeout'')\<rparr>)) = 1"
proof -
  let ?w = "\<lparr>stdin = ''Hello world'', environ = (\<lambda>v. None),
             langextract = Some (\<lambda>kw. Inl ''timeout'')\<rparr>"
  have a: "str_strip (stdin ?w) \<noteq> []" by (simp add: str_strip_def isspace_def)
  have b: "langextract ?w = Some (\<lambda>kw. Inl ''timeout'')" by simp
  have c: "(\<lambda>kw. Inl ''timeout'' :: string + engine_value)
             (extract_kwargs_of (environ ?w) (str_strip (stdin ?w))) = Inl ''timeout''" by simp
  from engine_failure_reported [OF a b c] show ?thesis by (simp add: newline_def)
qed

subsection \<open>C9: the text sent to the engine\<close>

text \<open>
  C9: on a non-empty input, with the engine installed, the driver calls the engine once,
  and the text it sends is the first 200000 characters of the stripped input: the whole
  stripped input when it has at most 200000 characters, exactly 200000 characters
  otherwise.
\<close>

theorem input_truncated_for_engine:
  assumes "str_strip (stdin w) \<noteq> []" and "langextract w = Some extract"
  shows "map text_or_documents (extract_calls (main w)) = [take 200000 (str_strip (stdin w))] \<and>
         (length (str_strip (stdin w)) \<le> 200000 \<longrightarrow>
            map text_or_documents (extract_calls (main w)) = [str_strip (stdin w)]) \<and>
         (200000 < length (str_strip (stdin w)) \<longrightarrow>
            length (take 200000 (str_strip (stdin w))) = 200000)"
proof -
  let ?raw = "str_strip (stdin w)"
  have t: "text_or_documents (extract_kwargs_of (environ w) ?raw) = take 200000 ?raw"
    by (simp add: extract_kwargs_of_def Let_def)
  have "extract_calls (main w) = [extract_kwargs_of (environ w) ?raw]"
    using assms
    by (cases "extract (extract_kwargs_of (environ w) ?raw)";
        cases "flatten_extractions (first_result (projr (extract (extract_kwargs_of (environ w) ?raw))))")
       (simp_all add: main_def Let_def)
  with t show ?thesis by simp
qed

theorem input_truncated_for_engine_witness:
  "map text_or_documents
     (extract_calls (main \<lparr>stdin = ''Hello world'', environ = (\<lambda>v. None),
                           langextract = Some (\<lambda>kw. Inl ''timeout'')\<rparr>)) = [''Hello world''] \<and>
   map text_or_documents
     (extract_calls (main \<lparr>stdin = replicate 200001 CHR ''a'', environ = (\<lambda>v. None),
                           langextract = Some (\<lambda>kw. Inl ''timeout'')\<rparr>)) =
     [replicate 200000 CHR ''a'']"
proof -
  let ?w1 = "\<lparr>stdin = ''Hello world'', environ = (\<lambda>v. None),
              langextract = Some (\<lambda>kw. Inl ''timeout'')\<rparr>"
  let ?w2 = "\<lparr>stdin = replicate 200001 CHR ''a'', environ = (\<lambda>v. None),
              langextract = Some (\<lambda>kw. Inl ''timeout'')\<rparr>"
  have s1: "str_strip ''Hello world'' = ''Hello world''" by (simp add: str_strip_def isspace_def)
  have s2: "str_strip (replicate 200001 CHR ''a'') = replicate 200001 CHR ''a''"
    by (simp add: str_strip_replicate isspace_def)
  have a1: "str_strip (stdin ?w1) \<noteq> []" by (simp add: s1)
  have a2: "str_strip (stdin ?w2) \<noteq> []" by (simp add: s2)
  have b1: "langextract ?w1 = Some (\<lambda>kw. Inl ''timeout'')" by simp
  have b2: "langextract ?w2 = Some (\<lambda>kw. Inl ''timeout'')" by simp
  from input_truncated_for_engine [OF a1 b1] input_truncated_for_engine [OF a2 b2]
  show ?thesis by (simp add: s1 s2)
qed

subsection \<open>C4: the fallback to the raw input\<close>

text \<open>
  C4, as the specification states it: whenever the input is not empty and the call of the
  engine succeeds, some non-empty text is written to standard output. This fails when
  the engine returns a record whose text is not a \<open>str\<close>: \<open>flatten_extractions\<close> raises,
  nothing catches the exception, and nothing is written to standard output.
\<close>

theorem no_output_when_normalization_raises:
  "str_strip ''Hello world'' \<noteq> [] \<and>
   stdout (main \<lparr>stdin = ''Hello world'', environ = (\<lambda>v. None),
                  langextract = Some (\<lambda>kw. Inr (OneDocument (AnnotatedDocument
                    (Some [\<lparr>extraction_class = Some (PyStr ''fact''),
                            extraction_text = Some PyNone, str_of = ''Extraction''\<rparr>]))))\<rparr>) = [] \<and>
   ending (main \<lparr>stdin = ''Hello world'', environ = (\<lambda>v. None),
                  langextract = Some (\<lambda>kw. Inr (OneDocument (AnnotatedDocument
                    (Some [\<lparr>extraction_class = Some (PyStr ''fact''),
                            extraction_text = Some PyNone, str_of = ''Extraction''\<rparr>]))))\<rparr>) =
     Uncaught AttributeError"
  by (simp add: main_def Let_def flatten_eval)

text \<open>
  C4, amended: on a non-empty input, when the call of the engine succeeds and returns a
  result on which the normalizer does not raise (every text is a \<open>str\<close>, and so is the
  label of every record whose trimmed text is not empty), the normalizer returns a string;
  if this string is empty or only whitespace, the driver writes the first 50000
  characters of the stripped input to standard output, otherwise it writes the string. In
  both cases the text written is not empty, nothing is written to the error stream and
  the exit status is 0.
\<close>

theorem fallback_to_raw_input:
  assumes "str_strip (stdin w) \<noteq> []"
    and "langextract w = Some extract"
    and "extract (extract_kwargs_of (environ w) (str_strip (stdin w))) = Inr v"
    and "result_well_typed (first_result v)"
  shows "\<exists>out. flatten_extractions (first_result v) = Inr out \<and>
           (str_strip out = [] \<longrightarrow> stdout (main w) = take 50000 (str_strip (stdin w))) \<and>
           (str_strip out \<noteq> [] \<longrightarrow> stdout (main w) = out) \<and>
           stdout (main w) \<noteq> [] \<and>
           stderr (main w) = [] \<and>
           exit_status (ending (main w)) = 0"
proof -
  from result_well_typed_returns [OF assms(4)]
  obtain out where out: "flatten_extractions (first_result v) = Inr out" by blast
  have ne: "str_strip out \<noteq> [] \<Longrightarrow> out \<noteq> []" using str_strip_Nil by auto
  show ?thesis
  proof (cases "str_strip out = []")
    case True
    with assms(1-3) out show ?thesis by (simp add: main_def Let_def)
  next
    case False
    with assms(1-3) out ne show ?thesis by (simp add: main_def Let_def)
  qed
qed

theorem fallback_to_raw_input_witness:
  "stdout (main \<lparr>stdin = ''  Hello world '', environ = (\<lambda>v. None),
                  langextract = Some (\<lambda>kw. Inr (OneDocument (AnnotatedDocument
                    (Some [str_extraction ''fact'' ''  '', str_extraction ''summary'' '''']))))\<rparr>) =
     ''Hello world'' \<and>
   flatten_extractions (AnnotatedDocument
     (Some [str_extraction ''fact'' ''  '', str_extraction ''summary'' ''''])) = Inr []"
proof -
  let ?v = "OneDocument (AnnotatedDocument
              (Some [str_extraction ''fact'' ''  '', str_extraction ''summary'' '''']))"
  let ?w = "\<lparr>stdin = ''  Hello world '', environ = (\<lambda>v. None),
             langextract = Some (\<lambda>kw. Inr ?v)\<rparr>"
  have s: "str_strip ''  Hello world '' = ''Hello world''" by (simp add: str_strip_def isspace_def)
  have a: "str_strip (stdin ?w) \<noteq> []" by (simp add: s)
  have b: "langextract ?w = Some (\<lambda>kw. Inr ?v)" by simp
  have c: "(\<lambda>kw. Inr ?v :: string + engine_value)
             (extract_kwargs_of (environ ?w) (str_strip (stdin ?w))) = Inr ?v" by simp
  have d: "result_well_typed (first_result ?v)"
    by (simp add: result_well_typed_def well_typed_def str_extraction_def text_of_def
        label_of_def getattr_def)
  have f: "flatten_extractions (first_result ?v) = Inr []" by (simp add: flatten_eval)
  from fallback_to_raw_input [OF a b c d] f s show ?thesis by (simp add: str_strip_Nil)
qed

subsection \<open>C3: the choice of the backend\<close>

text \<open>
  C3, as the specification states it: the values of the two variables are trimmed and the
  first one that is then non-empty is the credential. This fails when the first variable
  holds only whitespace and the second one holds a key: the script takes the first
  variable, because its value is a non-empty string, trims it to the empty string, and
  selects the local backend, although the second variable holds a key.
\<close>

theorem whitespace_key_hides_second_key:
  "first_trimmed_key ((\<lambda>v. None)(''LANGEXTRACT_API_KEY'' \<mapsto> '' '', ''GOOGLE_API_KEY'' \<mapsto> ''k'')) = ''k'' \<and>
   get_env_key ((\<lambda>v. None)(''LANGEXTRACT_API_KEY'' \<mapsto> '' '', ''GOOGLE_API_KEY'' \<mapsto> ''k'')) = [] \<and>
   model_id (extract_kwargs_of
     ((\<lambda>v. None)(''LANGEXTRACT_API_KEY'' \<mapsto> '' '', ''GOOGLE_API_KEY'' \<mapsto> ''k'')) ''Hello'') =
     ''gemma2:2b''"
  by (simp add: first_trimmed_key_def get_env_key_def py_or_def List.map_filter_def
      extract_kwargs_of_def Let_def str_strip_def isspace_def)

text \<open>
  C3, amended: the credential is the value of the first of \<open>LANGEXTRACT_API_KEY\<close> and
  \<open>GOOGLE_API_KEY\<close> that is set to a non-empty string, emptiness being tested before any
  trimming, with its surrounding whitespace then trimmed; it is the empty string when
  neither is. When the credential is not empty, the call parameters have the hosted model
  identifier \<open>gemini-2.5-flash\<close>, no endpoint URL and neither of the two flags; when it is
  empty, they have the local model identifier \<open>gemma2:2b\<close>, the endpoint
  \<open>http://localhost:11434\<close>, and both \<open>fence_output\<close> and \<open>use_schema_constraints\<close> set to
  \<open>False\<close>.
\<close>

theorem backend_selection:
  "get_env_key env =
     str_strip (case List.find (\<lambda>s. s \<noteq> [])
                       (List.map_filter env [''LANGEXTRACT_API_KEY'', ''GOOGLE_API_KEY'']) of
                  Some s \<Rightarrow> s
                | None \<Rightarrow> []) \<and>
   (get_env_key env \<noteq> [] \<longrightarrow>
      model_id (extract_kwargs_of env raw) = ''gemini-2.5-flash'' \<and>
      model_url (extract_kwargs_of env raw) = None \<and>
      fence_output (extract_kwargs_of env raw) = None \<and>
      use_schema_constraints (extract_kwargs_of env raw) = None) \<and>
   (get_env_key env = [] \<longrightarrow>
      model_id (extract_kwargs_of env raw) = ''gemma2:2b'' \<and>
      model_url (extract_kwargs_of env raw) = Some ''http://localhost:11434'' \<and>
      fence_output (extract_kwargs_of env raw) = Some False \<and>
      use_schema_constraints (extract_kwargs_of env raw) = Some False)"
proof -
  have 1: "get_env_key env =
     str_strip (case List.find (\<lambda>s. s \<noteq> [])
                       (List.map_filter env [''LANGEXTRACT_API_KEY'', ''GOOGLE_API_KEY'']) of
                  Some s \<Rightarrow> s
                | None \<Rightarrow> [])"
    by (cases "env ''LANGEXTRACT_API_KEY''"; cases "env ''GOOGLE_API_KEY''")
       (simp_all add: get_env_key_def py_or_def List.map_filter_def str_strip_Nil)
  have 2: "get_env_key env \<noteq> [] \<longrightarrow>
      model_id (extract_kwargs_of env raw) = ''gemini-2.5-flash'' \<and>
      model_url (extract_kwargs_of env raw) = None \<and>
      fence_output (extract_kwargs_of env raw) = None \<and>
      use_schema_constraints (extract_kwargs_of env raw) = None"
    by (simp add: extract_kwargs_of_def Let_def)
  have 3: "get_env_key env = [] \<longrightarrow>
      model_id (extract_kwargs_of env raw) = ''gemma2:2b'' \<and>
      model_url (extract_kwargs_of env raw) = Some ''http://localhost:11434'' \<and>
      fence_output (extract_kwargs_of env raw) = Some False \<and>
      use_schema_constraints (extract_kwargs_of env raw) = Some False"
    by (simp add: extract_kwargs_of_def Let_def)
  from 1 2 3 show ?thesis by simp
qed

theorem backend_selection_witness:
  "get_env_key ((\<lambda>v. None)(''GOOGLE_API_KEY'' \<mapsto> '' k '')) = ''k'' \<and>
   model_id (extract_kwargs_of ((\<lambda>v. None)(''GOOGLE_API_KEY'' \<mapsto> '' k '')) ''Hello'') =
     ''gemini-2.5-flash'' \<and>
   model_url (extract_kwargs_of ((\<lambda>v. None)(''GOOGLE_API_KEY'' \<mapsto> '' k '')) ''Hello'') = None \<and>
   get_env_key (\<lambda>v. None) = [] \<and>
   model_id (extract_kwargs_of (\<lambda>v. None) ''Hello'') = ''gemma2:2b'' \<and>
   model_url (extract_kwargs_of (\<lambda>v. None) ''Hello'') = Some ''http://localhost:11434'' \<and>
   fence_output (extract_kwargs_of (\<lambda>v. None) ''Hello'') = Some False \<and>
   use_schema_constraints (extract_kwargs_of (\<lambda>v. None) ''Hello'') = Some False"
proof -
  have a: "get_env_key ((\<lambda>v. None)(''GOOGLE_API_KEY'' \<mapsto> '' k '')) = ''k''"
    by (simp add: get_env_key_def py_or_def str_strip_def isspace_def)
  have b: "get_env_key (\<lambda>v. None) = []"
    by (simp add: get_env_key_def py_or_def str_strip_def)
  from backend_selection [of "(\<lambda>v. None)(''GOOGLE_API_KEY'' \<mapsto> '' k '')" "''Hello''"]
    backend_selection [of "\<lambda>v. None" "''Hello''"] a b
  show ?thesis by simp
qed

end
